theory Spec2Isabelle
  imports Main
begin

section \<open>The auto-save controller: \<^verbatim>\<open>useAutoSave\<close>\<close>

text \<open>
  The hook of \<^verbatim>\<open>features/answers/hooks/useAutoSave\<close> is a React hook: its code runs on
  every render, its effects run when their dependencies change, its timers and the promise
  of \<^verbatim>\<open>onSave\<close> are completed later by the event loop. The embedding makes that explicit:
  one record holds the hook's references and state together with the pending timers, the
  calls of \<^verbatim>\<open>onSave\<close> still in flight, the clock and the trace of calls made to the
  caller's functions; every handler of the source is a function on that record, and the
  event loop is a list of events.

  What the caller's functions do is decided by the environment, call by call: the promise
  of \<^verbatim>\<open>onSave\<close> resolves or rejects (an \<^verbatim>\<open>onSave\<close> that throws before returning a
  promise takes the same \<^verbatim>\<open>catch\<close>, and is a rejection that arrives at once), and each of
  the callbacks \<^verbatim>\<open>onSuccess\<close> and \<^verbatim>\<open>onError\<close> returns or throws. \<open>hasUnsavedChanges\<close> and
  \<open>status\<close> are the values a render in the given state returns.
\<close>

datatype AutoSaveStatus = Idle | Saving | Saved | Error

text \<open>A value a promise can reject with: an instance of \<^verbatim>\<open>Error\<close> (with its message) or
  anything else (a string, a plain object, ...).\<close>

datatype js_value = ErrorInstance string | NonError string

text \<open>The arguments of one call of the hook: \<^verbatim>\<open>content\<close>, \<^verbatim>\<open>onSave\<close> and the options,
  with the defaults of the destructuring applied by the caller. A function argument is
  represented by its identity (React compares dependencies with \<^verbatim>\<open>Object.is\<close>); an
  optional callback that is absent is \<open>None\<close>.\<close>

record hook_args =
  content :: string
  onSave :: nat
  debounceMs :: nat
  enabled :: bool
  onSuccess :: "nat option"
  onError :: "nat option"

text \<open>What a pending timer runs: the arrow function of the debounce effect, which closes
  over \<^verbatim>\<open>performSave\<close> and \<^verbatim>\<open>content\<close> of its render, or the 2000 ms reset armed
  by a successful save.\<close>

datatype timer_callback = DebouncedSave hook_args | ResetToIdle

record timer =
  tid :: nat
  due :: nat
  callback :: timer_callback

datatype origin = ByTimer | ByForceSave

text \<open>A call of \<^verbatim>\<open>performSave\<close> suspended at \<^verbatim>\<open>await onSave(contentToSave)\<close>.\<close>

record save_call =
  pid :: nat
  contentToSave :: string
  captured :: hook_args
  origin :: origin

datatype promise_outcome = Fulfilled | RejectedWith js_value

text \<open>How a call of one of the optional callbacks ends.\<close>

datatype call_result = Returns | Throws js_value

text \<open>What the hook does to its caller, in order: calls of \<^verbatim>\<open>onSave\<close> (function, content,
  time), of the two optional callbacks, the settling of a promise returned by
  \<^verbatim>\<open>forceSave\<close>, and the rejection of a promise nobody holds (the debounce timer calls
  \<^verbatim>\<open>void performSave(content)\<close>).\<close>

datatype effect =
    OnSaveCalled nat string nat
  | OnSuccessCalled nat
  | OnErrorCalled nat js_value
  | ForceSaveSettled nat promise_outcome
  | UnhandledRejection js_value

text \<open>\<open>contentChangedAt\<close> is a history variable (the time of the last render whose content
  differs from the one before); no operation reads it.\<close>

record state =
  args :: hook_args
  status :: AutoSaveStatus
  lastSavedContent :: string
  timerRef :: "nat option"
  isMounted :: bool
  hasCleanup :: bool
  timers :: "timer list"
  inflight :: "save_call list"
  now :: nat
  nextId :: nat
  trace :: "effect list"
  contentChangedAt :: nat

subsection \<open>Timers\<close>

text \<open>The platform keeps the delay of a timer in a signed 32-bit integer. A delay above
  \<open>2\<^sup>3\<^sup>1 - 1\<close> does not fit, and the timer then runs after 1 ms instead (the rule of the
  Node.js timers; a browser wraps such a delay, and runs at once a timer whose wrapped delay
  is negative).\<close>

definition timer_delay :: "nat \<Rightarrow> nat" where
  "timer_delay ms = (if ms \<le> 2147483647 then ms else 1)"

definition setTimeout :: "timer_callback \<Rightarrow> nat \<Rightarrow> state \<Rightarrow> state" where
  "setTimeout cb ms s =
     s\<lparr>timers := timers s @ [\<lparr>tid = nextId s, due = now s + timer_delay ms, callback = cb\<rparr>],
       nextId := Suc (nextId s)\<rparr>"

definition clearTimeout :: "nat \<Rightarrow> state \<Rightarrow> state" where
  "clearTimeout i s = s\<lparr>timers := filter (\<lambda>t. tid t \<noteq> i) (timers s)\<rparr>"

text \<open>\<^verbatim>\<open>if (timerRef.current) { clearTimeout(timerRef.current); }\<close>: the reference keeps
  the handle of a timer that has fired or was cleared, and clearing it again does nothing.\<close>

definition clearTimerRef :: "state \<Rightarrow> state" where
  "clearTimerRef s = (case timerRef s of None \<Rightarrow> s | Some i \<Rightarrow> clearTimeout i s)"

text \<open>The timer the event loop runs next: the earliest due, the oldest among equals.\<close>

fun next_timer :: "timer list \<Rightarrow> timer option" where
  "next_timer [] = None"
| "next_timer (t # ts) =
     (case next_timer ts of
        None \<Rightarrow> Some t
      | Some u \<Rightarrow> if due u < due t then Some u else Some t)"

subsection \<open>\<^verbatim>\<open>performSave\<close>\<close>

text \<open>The promise of a call of \<^verbatim>\<open>performSave\<close> settles: \<^verbatim>\<open>forceSave\<close> awaits it and
  settles the same way; the debounce timer discards it.\<close>

definition promise_entries :: "origin \<Rightarrow> nat \<Rightarrow> promise_outcome \<Rightarrow> effect list" where
  "promise_entries og k out =
     (case og of
        ByForceSave \<Rightarrow> [ForceSaveSettled k out]
      | ByTimer \<Rightarrow> (case out of Fulfilled \<Rightarrow> [] | RejectedWith v \<Rightarrow> [UnhandledRejection v]))"

definition settle_promise :: "origin \<Rightarrow> nat \<Rightarrow> promise_outcome \<Rightarrow> state \<Rightarrow> state" where
  "settle_promise og k out s = s\<lparr>trace := trace s @ promise_entries og k out\<rparr>"

text \<open>The promise of \<^verbatim>\<open>performSave\<close> when its last call, a callback, ends with \<open>res\<close>.\<close>

definition outcome_of :: "call_result \<Rightarrow> promise_outcome" where
  "outcome_of res = (case res of Returns \<Rightarrow> Fulfilled | Throws w \<Rightarrow> RejectedWith w)"

text \<open>The part of \<^verbatim>\<open>performSave\<close> before the \<^verbatim>\<open>await\<close>: it returns at once when the
  component is unmounted, and otherwise sets the status and calls \<^verbatim>\<open>onSave\<close>.\<close>

definition performSave :: "hook_args \<Rightarrow> string \<Rightarrow> origin \<Rightarrow> state \<Rightarrow> state" where
  "performSave cl c og s =
     (if \<not> isMounted s
      then settle_promise og (nextId s) Fulfilled (s\<lparr>nextId := Suc (nextId s)\<rparr>)
      else s\<lparr>status := Saving,
             inflight := inflight s @
               [\<lparr>pid = nextId s, contentToSave = c, captured = cl, origin = og\<rparr>],
             trace := trace s @ [OnSaveCalled (onSave cl) c (now s)],
             nextId := Suc (nextId s)\<rparr>)"

text \<open>\<^verbatim>\<open>error instanceof Error ? error : new Error('Save failed')\<close>\<close>

fun toError :: "js_value \<Rightarrow> js_value" where
  "toError (ErrorInstance m) = ErrorInstance m"
| "toError (NonError v) = ErrorInstance ''Save failed''"

fun instanceofError :: "js_value \<Rightarrow> bool" where
  "instanceofError (ErrorInstance m) = True"
| "instanceofError (NonError v) = False"

definition take_call :: "nat \<Rightarrow> state \<Rightarrow> state" where
  "take_call i s = s\<lparr>inflight := filter (\<lambda>r. pid r \<noteq> i) (inflight s)\<rparr>"

text \<open>The \<^verbatim>\<open>catch\<close> block of the call \<open>r\<close>, entered with the value \<open>e\<close> that was thrown in the
  \<^verbatim>\<open>try\<close>; \<open>eo\<close> is how \<^verbatim>\<open>onError\<close> ends if it is called. Nothing encloses the block: what
  \<^verbatim>\<open>onError\<close> throws rejects the promise of \<^verbatim>\<open>performSave\<close>.\<close>

definition catch_block :: "save_call \<Rightarrow> js_value \<Rightarrow> call_result \<Rightarrow> state \<Rightarrow> state" where
  "catch_block r e eo s =
     (if isMounted s
      then (case onError (captured r) of
              None \<Rightarrow> settle_promise (origin r) (pid r) Fulfilled (s\<lparr>status := Error\<rparr>)
            | Some k \<Rightarrow>
                settle_promise (origin r) (pid r) (outcome_of eo)
                  (s\<lparr>status := Error, trace := trace s @ [OnErrorCalled k (toError e)]\<rparr>))
      else settle_promise (origin r) (pid r) Fulfilled s)"

text \<open>The continuation of \<^verbatim>\<open>performSave\<close> after \<^verbatim>\<open>onSave\<close> resolved: the rest of the
  \<^verbatim>\<open>try\<close> block. \<open>so\<close> is how \<^verbatim>\<open>onSuccess\<close> ends if it is called: it is called inside the
  \<^verbatim>\<open>try\<close>, after the snapshot and the status are written and before the reset is armed,
  so what it throws is caught by the \<^verbatim>\<open>catch\<close> block.\<close>

definition resolve :: "nat \<Rightarrow> call_result \<Rightarrow> call_result \<Rightarrow> state \<Rightarrow> state" where
  "resolve i so eo s =
     (case find (\<lambda>r. pid r = i) (inflight s) of
        None \<Rightarrow> s
      | Some r \<Rightarrow>
          if \<not> isMounted s then settle_promise (origin r) (pid r) Fulfilled (take_call i s)
          else
            (let s1 = (take_call i s)\<lparr>lastSavedContent := contentToSave r, status := Saved\<rparr>
             in case onSuccess (captured r) of
                  None \<Rightarrow>
                    settle_promise (origin r) (pid r) Fulfilled (setTimeout ResetToIdle 2000 s1)
                | Some k \<Rightarrow>
                    (let s2 = s1\<lparr>trace := trace s1 @ [OnSuccessCalled k]\<rparr>
                     in case so of
                          Returns \<Rightarrow>
                            settle_promise (origin r) (pid r) Fulfilled
                              (setTimeout ResetToIdle 2000 s2)
                        | Throws v \<Rightarrow> catch_block r v eo s2)))"

text \<open>The continuation after \<^verbatim>\<open>onSave\<close> rejected with \<open>e\<close>: the \<^verbatim>\<open>catch\<close> block.\<close>

definition reject :: "nat \<Rightarrow> js_value \<Rightarrow> call_result \<Rightarrow> state \<Rightarrow> state" where
  "reject i e eo s =
     (case find (\<lambda>r. pid r = i) (inflight s) of
        None \<Rightarrow> s
      | Some r \<Rightarrow> catch_block r e eo (take_call i s))"

subsection \<open>Timers firing\<close>

definition fire_timer :: "timer \<Rightarrow> state \<Rightarrow> state" where
  "fire_timer t s =
     (case callback t of
        DebouncedSave cl \<Rightarrow> performSave cl (content cl) ByTimer s
      | ResetToIdle \<Rightarrow> if isMounted s then s\<lparr>status := Idle\<rparr> else s)"

definition fire :: "state \<Rightarrow> state" where
  "fire s =
     (case next_timer (timers s) of
        None \<Rightarrow> s
      | Some t \<Rightarrow>
          if due t \<le> now s then fire_timer t (s\<lparr>timers := remove1 t (timers s)\<rparr>) else s)"

subsection \<open>Mount, render, unmount\<close>

text \<open>The first render and its effects: the status is \<^verbatim>\<open>'idle'\<close>, the snapshot is the
  content, and the debounce effect returns early (the content is the snapshot), so no timer
  is armed and no cleanup is registered.\<close>

definition mount :: "hook_args \<Rightarrow> nat \<Rightarrow> state" where
  "mount p t0 =
     \<lparr>args = p, status = Idle, lastSavedContent = content p, timerRef = None,
      isMounted = True, hasCleanup = False, timers = [], inflight = [], now = t0,
      nextId = 1, trace = [], contentChangedAt = t0\<rparr>"

text \<open>The body of the debounce effect.\<close>

definition debounce_effect :: "state \<Rightarrow> state" where
  "debounce_effect s =
     (if \<not> enabled (args s) then s\<lparr>hasCleanup := False\<rparr>
      else if content (args s) = lastSavedContent s then s\<lparr>hasCleanup := False\<rparr>
      else (let s1 = clearTimerRef s
            in (setTimeout (DebouncedSave (args s)) (debounceMs (args s)) s1)
                 \<lparr>timerRef := Some (nextId s1), hasCleanup := True\<rparr>))"

text \<open>A later render with arguments \<open>p\<close>. The dependencies of the debounce effect are
  \<^verbatim>\<open>[content, enabled, debounceMs, performSave]\<close> and \<^verbatim>\<open>performSave\<close> is memoised on
  \<^verbatim>\<open>[onSave, onSuccess, onError]\<close>: the effect runs again exactly when one of the six
  arguments changed, after the cleanup its last run returned (if it returned one).\<close>

definition render :: "hook_args \<Rightarrow> state \<Rightarrow> state" where
  "render p s =
     (if p = args s then s
      else debounce_effect
             ((if hasCleanup s then clearTimerRef s else s)
                \<lparr>args := p,
                 contentChangedAt :=
                   (if content p = content (args s) then contentChangedAt s else now s)\<rparr>))"

text \<open>Unmounting runs the cleanups of the three effects.\<close>

definition unmount :: "state \<Rightarrow> state" where
  "unmount s =
     (let s1 = s\<lparr>isMounted := False\<rparr>;
          s2 = clearTimerRef s1;
          s3 = (if hasCleanup s2 then clearTimerRef s2 else s2)
      in s3\<lparr>hasCleanup := False\<rparr>)"

subsection \<open>What the hook returns\<close>

definition forceSave :: "state \<Rightarrow> state" where
  "forceSave s = performSave (args s) (content (args s)) ByForceSave (clearTimerRef s)"

definition resetStatus :: "state \<Rightarrow> state" where
  "resetStatus s = s\<lparr>status := Idle\<rparr>"

definition hasUnsavedChanges :: "state \<Rightarrow> bool" where
  "hasUnsavedChanges s = (content (args s) \<noteq> lastSavedContent s)"

subsection \<open>The event loop\<close>

text \<open>\<open>Tick\<close> lets time pass and \<open>Fire\<close> runs the next timer once it is due, so a timer may
  run late, as in a browser, but never early. \<open>Resolve\<close> and \<open>Reject\<close> settle the promise of
  a call of \<^verbatim>\<open>onSave\<close> and say how the callbacks end that the continuation calls.\<close>

datatype event =
    Render hook_args
  | ForceSave
  | ResetStatus
  | Resolve nat call_result call_result
  | Reject nat js_value call_result
  | Unmount
  | Tick nat
  | Fire

fun step :: "event \<Rightarrow> state \<Rightarrow> state" where
  "step (Render p) s = render p s"
| "step ForceSave s = forceSave s"
| "step ResetStatus s = resetStatus s"
| "step (Resolve i so eo) s = resolve i so eo s"
| "step (Reject i e eo) s = reject i e eo s"
| "step Unmount s = unmount s"
| "step (Tick dt) s = s\<lparr>now := now s + dt\<rparr>"
| "step Fire s = fire s"

definition exec :: "event list \<Rightarrow> state \<Rightarrow> state" where
  "exec es s = fold step es s"

subsection \<open>Letting time pass with every timer on time\<close>

lemma next_timer_mem: "next_timer ts = Some t \<Longrightarrow> t \<in> set ts"
  by (induction ts arbitrary: t) (auto split: option.splits if_splits)

lemma next_timer_None: "next_timer ts = None \<longleftrightarrow> ts = []"
  by (induction ts) (auto split: option.splits)

lemma timers_fire_timer: "timers (fire_timer t s) = timers s"
  by (simp add: fire_timer_def performSave_def settle_promise_def
           split: timer_callback.splits origin.splits)

text \<open>\<open>run_timers T\<close> runs, in the order of the event loop and each at the time it is due,
  every pending timer due at \<open>T\<close> or before (a timer already overdue runs at once). A
  timer's callback arms no timer, so the loop ends when the timers due are used up.\<close>

function run_timers :: "nat \<Rightarrow> state \<Rightarrow> state" where
  "run_timers T s =
     (case next_timer (timers s) of
        None \<Rightarrow> s
      | Some t \<Rightarrow>
          if due t \<le> T
          then run_timers T
                 (fire_timer t (s\<lparr>timers := remove1 t (timers s), now := max (now s) (due t)\<rparr>))
          else s)"
  by pat_completeness auto
termination
proof (relation "measure (\<lambda>(T, s). length (timers s))")
  show "wf (measure (\<lambda>(T, s). length (timers s)))" by simp
next
  fix T :: nat and s :: state and t :: timer
  assume "next_timer (timers s) = Some t"
  then have "t \<in> set (timers s)" by (rule next_timer_mem)
  then have "length (remove1 t (timers s)) < length (timers s)"
    by (simp add: length_remove1) (cases "timers s", auto)
  then show "((T, fire_timer t (s\<lparr>timers := remove1 t (timers s), now := max (now s) (due t)\<rparr>)), (T, s))
         \<in> measure (\<lambda>(T, s). length (timers s))"
    by (simp add: timers_fire_timer)
qed

declare run_timers.simps [simp del]

definition advance :: "nat \<Rightarrow> state \<Rightarrow> state" where
  "advance dt s = (run_timers (now s + dt) s)\<lparr>now := now s + dt\<rparr>"


subsection \<open>Scenarios\<close>

text \<open>Concrete arguments and states used to run the model: an editor with auto-save on and
  a debounce of 1000 ms, the same editor with auto-save off, and the state in which the
  user typed \<open>a\<close>, waited for the debounce and the save of \<open>a\<close> is in flight.\<close>

definition typing_args :: hook_args where
  "typing_args =
     \<lparr>content = [], onSave = 0, debounceMs = 1000, enabled = True,
      onSuccess = Some 7, onError = Some 8\<rparr>"

definition manual_args :: hook_args where
  "manual_args = typing_args\<lparr>content := ''x'', enabled := False\<rparr>"

definition saving_a :: state where
  "saving_a = exec [Render (typing_args\<lparr>content := ''a''\<rparr>), Tick 1000, Fire] (mount typing_args 0)"

definition typed_a :: state where
  "typed_a = exec [Render (typing_args\<lparr>content := ''a''\<rparr>)] (mount typing_args 0)"

text \<open>The same editor with a debounce that does not fit the timer of the platform, and the
  state in which \<^verbatim>\<open>forceSave()\<close> was called right after \<open>a\<close> was typed.\<close>

definition huge_args :: hook_args where
  "huge_args = typing_args\<lparr>debounceMs := 3000000000\<rparr>"

definition forced_a :: state where
  "forced_a = exec [Render (typing_args\<lparr>content := ''a''\<rparr>), ForceSave] (mount typing_args 0)"

subsection \<open>Reachable states are well formed\<close>

text \<open>Every pending debounce timer is the one \<^verbatim>\<open>timerRef\<close> holds, was armed by the
  current render with auto-save enabled, and is due no earlier than the timer's delay for
  \<open>debounceMs\<close> after the last change of the content; the identifiers of calls in flight
  are below the next one.\<close>

definition wellformed :: "state \<Rightarrow> bool" where
  "wellformed s \<longleftrightarrow>
     contentChangedAt s \<le> now s \<and>
     (\<forall>r \<in> set (inflight s). pid r < nextId s) \<and>
     (\<forall>t \<in> set (timers s). \<forall>cl. callback t = DebouncedSave cl \<longrightarrow>
        cl = args s \<and> enabled (args s) \<and> timerRef s = Some (tid t) \<and> hasCleanup s \<and>
        contentChangedAt s + timer_delay (debounceMs (args s)) \<le> due t)"

text \<open>The calls made to the caller's functions, without the bookkeeping of promises.\<close>

definition caller_calls :: "effect list \<Rightarrow> effect list" where
  "caller_calls tr =
     filter (\<lambda>x. case x of ForceSaveSettled k v \<Rightarrow> False | UnhandledRejection v \<Rightarrow> False
                      | _ \<Rightarrow> True) tr"




section \<open>The debounce primitive: \<^verbatim>\<open>useDebounce\<close>\<close>











section \<open>Lemmas about the controller\<close>

lemmas op_defs = render_def debounce_effect_def clearTimerRef_def clearTimeout_def
  setTimeout_def performSave_def settle_promise_def promise_entries_def outcome_of_def
  catch_block_def take_call_def
  resolve_def reject_def fire_timer_def fire_def unmount_def forceSave_def resetStatus_def
  hasUnsavedChanges_def

lemmas scenario_defs = typing_args_def manual_args_def huge_args_def saving_a_def mount_def
  exec_def timer_delay_def



lemma find_append_new:
  "find P (xs @ ys) = (case find P xs of None \<Rightarrow> find P ys | Some x \<Rightarrow> Some x)"
  by (induction xs) simp_all

lemma wellformed_mount: "wellformed (mount p t0)"
  by (simp add: wellformed_def mount_def)

lemma wellformed_render: "wellformed s \<Longrightarrow> wellformed (render p s)"
  unfolding wellformed_def
  by (auto simp: op_defs Let_def split: option.splits)

lemma wellformed_forceSave: "wellformed s \<Longrightarrow> wellformed (forceSave s)"
  unfolding wellformed_def
  by (auto simp: op_defs Let_def less_Suc_eq split: option.splits origin.splits)

lemma settle_promise_frame:
  "args (settle_promise og k out s) = args s \<and> status (settle_promise og k out s) = status s \<and>
   lastSavedContent (settle_promise og k out s) = lastSavedContent s \<and>
   timerRef (settle_promise og k out s) = timerRef s \<and>
   isMounted (settle_promise og k out s) = isMounted s \<and>
   hasCleanup (settle_promise og k out s) = hasCleanup s \<and>
   timers (settle_promise og k out s) = timers s \<and>
   inflight (settle_promise og k out s) = inflight s \<and>
   now (settle_promise og k out s) = now s \<and> nextId (settle_promise og k out s) = nextId s \<and>
   contentChangedAt (settle_promise og k out s) = contentChangedAt s"
  by (simp add: settle_promise_def)

lemma wellformed_settle_promise: "wellformed (settle_promise og k out s) = wellformed s"
  by (simp add: wellformed_def settle_promise_frame)

lemma wellformed_catch_block:
  "wellformed s \<Longrightarrow> wellformed (catch_block r e eo s)"
proof -
  assume wf: "wellformed s"
  have "wellformed (s\<lparr>status := Error\<rparr>)" "wellformed (s\<lparr>status := Error, trace := x\<rparr>)" for x
    using wf by (auto simp: wellformed_def)
  with wf show ?thesis
    by (simp add: catch_block_def wellformed_settle_promise split: option.splits)
qed

lemma wellformed_take_call: "wellformed s \<Longrightarrow> wellformed (take_call i s)"
  by (auto simp: wellformed_def take_call_def)

lemma wellformed_resolve: "wellformed s \<Longrightarrow> wellformed (resolve i so eo s)"
proof -
  assume wf: "wellformed s"
  then have tc: "wellformed (take_call i s)" by (rule wellformed_take_call)
  have upd: "wellformed (u\<lparr>lastSavedContent := c, status := Saved\<rparr>)" if "wellformed u" for u c
    using that by (auto simp: wellformed_def)
  have tr: "wellformed (u\<lparr>trace := x\<rparr>)" if "wellformed u" for u x
    using that by (auto simp: wellformed_def)
  have st: "wellformed (setTimeout ResetToIdle 2000 u)" if "wellformed u" for u
    using that by (auto simp: wellformed_def setTimeout_def less_Suc_eq)
  show ?thesis
    using wf tc upd tr st
    by (simp add: resolve_def Let_def wellformed_settle_promise wellformed_catch_block
             split: option.splits call_result.splits)
qed

lemma wellformed_reject: "wellformed s \<Longrightarrow> wellformed (reject i e eo s)"
  by (simp add: reject_def wellformed_catch_block wellformed_take_call split: option.splits)

lemma wellformed_unmount: "wellformed s \<Longrightarrow> wellformed (unmount s)"
  unfolding wellformed_def
  by (auto simp: op_defs Let_def split: option.splits)

lemma wellformed_fire_timer:
  "wellformed s \<Longrightarrow> wellformed (fire_timer t (s\<lparr>timers := remove1 t (timers s)\<rparr>))"
  unfolding wellformed_def
  by (auto simp: op_defs less_Suc_eq dest: notin_set_remove1 split: timer_callback.splits)

lemma wellformed_fire: "wellformed s \<Longrightarrow> wellformed (fire s)"
  by (simp add: fire_def wellformed_fire_timer split: option.splits)

lemma wellformed_step: "wellformed s \<Longrightarrow> wellformed (step e s)"
proof (cases e)
  case (Tick dt)
  assume "wellformed s"
  then show ?thesis using Tick by (auto simp: wellformed_def)
next
  case ResetStatus
  assume "wellformed s"
  then show ?thesis using ResetStatus by (auto simp: wellformed_def resetStatus_def)
qed (simp_all add: wellformed_render wellformed_forceSave wellformed_resolve
       wellformed_reject wellformed_unmount wellformed_fire)

lemma wellformed_exec: "wellformed s \<Longrightarrow> wellformed (exec es s)"
  unfolding exec_def by (induction es arbitrary: s) (simp_all add: wellformed_step)

lemma wellformed_reachable: "wellformed (exec es (mount p t0))"
  by (simp add: wellformed_exec wellformed_mount)

lemma saving_a_state:
  "saving_a =
     \<lparr>args = typing_args\<lparr>content := ''a''\<rparr>, status = Saving, lastSavedContent = [],
      timerRef = Some 1, isMounted = True, hasCleanup = True, timers = [],
      inflight = [\<lparr>pid = 2, contentToSave = ''a'',
                   captured = typing_args\<lparr>content := ''a''\<rparr>, origin = ByTimer\<rparr>],
      now = 1000, nextId = 3, trace = [OnSaveCalled 0 ''a'' 1000], contentChangedAt = 0\<rparr>"
  by (simp add: scenario_defs op_defs)

lemma typed_a_state:
  "typed_a =
     \<lparr>args = typing_args\<lparr>content := ''a''\<rparr>, status = Idle, lastSavedContent = [],
      timerRef = Some 1, isMounted = True, hasCleanup = True,
      timers = [\<lparr>tid = 1, due = 1000, callback = DebouncedSave (typing_args\<lparr>content := ''a''\<rparr>)\<rparr>],
      inflight = [], now = 0, nextId = 2, trace = [], contentChangedAt = 0\<rparr>"
  by (simp add: typed_a_def scenario_defs op_defs)

lemma forced_a_state:
  "forced_a =
     \<lparr>args = typing_args\<lparr>content := ''a''\<rparr>, status = Saving, lastSavedContent = [],
      timerRef = Some 1, isMounted = True, hasCleanup = True, timers = [],
      inflight = [\<lparr>pid = 2, contentToSave = ''a'',
                   captured = typing_args\<lparr>content := ''a''\<rparr>, origin = ByForceSave\<rparr>],
      now = 0, nextId = 3, trace = [OnSaveCalled 0 ''a'' 0], contentChangedAt = 0\<rparr>"
  by (simp add: forced_a_def scenario_defs op_defs)

lemma next_timer_min: "next_timer ts = Some t \<Longrightarrow> u \<in> set ts \<Longrightarrow> due t \<le> due u"
  by (induction ts arbitrary: t) (auto split: option.splits if_splits simp: next_timer_None)

lemma next_timer_snoc:
  "next_timer (ts @ [t]) =
     (case next_timer ts of
        None \<Rightarrow> Some t
      | Some u \<Rightarrow> if due t < due u then Some t else Some u)"
  by (induction ts) (auto split: option.splits)

lemma run_timers_stop: "next_timer (timers s) = None \<Longrightarrow> run_timers T s = s"
  by (simp add: run_timers.simps)

lemma run_timers_later:
  "next_timer (timers s) = Some t \<Longrightarrow> T < due t \<Longrightarrow> run_timers T s = s"
  by (simp add: run_timers.simps)

lemma run_timers_fire:
  "next_timer (timers s) = Some t \<Longrightarrow> due t \<le> T \<Longrightarrow>
   run_timers T s =
     run_timers T (fire_timer t (s\<lparr>timers := remove1 t (timers s), now := max (now s) (due t)\<rparr>))"
  by (subst run_timers.simps) simp

lemma isMounted_fire_timer: "isMounted (fire_timer t s) = isMounted s"
  by (simp add: fire_timer_def performSave_def settle_promise_def
           split: timer_callback.splits origin.splits)

text \<open>The reset armed last and due at \<open>T\<close> is the last timer \<open>run_timers T\<close> runs.\<close>

lemma reset_runs_last:
  assumes "isMounted s" and "timers s = ts @ [t]" and "callback t = ResetToIdle"
      and "due t = T"
  shows "status (run_timers T s) = Idle"
  using assms
proof (induction "length ts" arbitrary: s ts)
  case 0
  then have nt: "next_timer (timers s) = Some t" by simp
  have "run_timers T (fire_timer t (s\<lparr>timers := remove1 t (timers s), now := max (now s) (due t)\<rparr>))
        = fire_timer t (s\<lparr>timers := remove1 t (timers s), now := max (now s) (due t)\<rparr>)"
    using 0 by (intro run_timers_stop) (simp add: timers_fire_timer)
  with run_timers_fire[OF nt, of T] 0 show ?case
    by (simp add: fire_timer_def)
next
  case (Suc n)
  then obtain u where u: "next_timer ts = Some u"
    by (cases "next_timer ts") (auto simp: next_timer_None)
  have umem: "u \<in> set ts" using u by (rule next_timer_mem)
  let ?fired = "\<lambda>x. fire_timer x (s\<lparr>timers := remove1 x (timers s), now := max (now s) (due x)\<rparr>)"
  show ?case
  proof (cases "due t < due u")
    case True
    then have nt: "next_timer (timers s) = Some t"
      using Suc.prems(2) u by (simp add: next_timer_snoc)
    have "t \<notin> set ts"
    proof
      assume "t \<in> set ts"
      then have "due u \<le> due t" using u by (rule next_timer_min[rotated])
      with True show False by simp
    qed
    then have rest: "timers (?fired t) = ts"
      using Suc.prems(2) by (simp add: timers_fire_timer remove1_append)
    have "run_timers T (?fired t) = ?fired t"
      using rest u True Suc.prems(4) by (intro run_timers_later[where t = u]) simp_all
    with run_timers_fire[OF nt, of T] Suc.prems show ?thesis
      by (simp add: fire_timer_def)
  next
    case False
    then have nu: "next_timer (timers s) = Some u"
      using Suc.prems(2) u by (simp add: next_timer_snoc)
    have le: "due u \<le> T" using False Suc.prems(4) by simp
    have rest: "timers (?fired u) = remove1 u ts @ [t]"
      using Suc.prems(2) umem by (simp add: timers_fire_timer remove1_append)
    have len: "n = length (remove1 u ts)"
      using Suc.hyps(2) umem by (simp add: length_remove1)
    have "isMounted (?fired u)" using Suc.prems(1) by (simp add: isMounted_fire_timer)
    from Suc.hyps(1)[OF len this rest Suc.prems(3,4)] run_timers_fire[OF nu le]
    show ?thesis by simp
  qed
qed















section \<open>Properties of the auto-save controller\<close>



lemma find_pid: "find (\<lambda>r. pid r = i) xs = Some r \<Longrightarrow> pid r = i"
  by (auto simp: find_Some_iff)

lemma catch_block_frame:
  "lastSavedContent (catch_block r e eo s) = lastSavedContent s \<and>
   args (catch_block r e eo s) = args s \<and> now (catch_block r e eo s) = now s \<and>
   nextId (catch_block r e eo s) = nextId s \<and> timers (catch_block r e eo s) = timers s \<and>
   inflight (catch_block r e eo s) = inflight s \<and>
   isMounted (catch_block r e eo s) = isMounted s \<and>
   timerRef (catch_block r e eo s) = timerRef s \<and>
   hasCleanup (catch_block r e eo s) = hasCleanup s"
  by (simp add: catch_block_def settle_promise_frame split: option.splits)

lemma catch_block_status:
  "status (catch_block r e eo s) = (if isMounted s then Error else status s)"
  by (simp add: catch_block_def settle_promise_frame split: option.splits)

lemma catch_block_trace:
  "trace (catch_block r e eo s) =
     trace s @
     (if isMounted s
      then (case onError (captured r) of
              None \<Rightarrow> promise_entries (origin r) (pid r) Fulfilled
            | Some k \<Rightarrow> OnErrorCalled k (toError e) # promise_entries (origin r) (pid r) (outcome_of eo))
      else promise_entries (origin r) (pid r) Fulfilled)"
  by (simp add: catch_block_def settle_promise_def split: option.splits)

lemma caller_calls_append: "caller_calls (xs @ ys) = caller_calls xs @ caller_calls ys"
  by (simp add: caller_calls_def)

lemma caller_calls_Cons:
  "caller_calls (OnSaveCalled f c t # xs) = OnSaveCalled f c t # caller_calls xs"
  "caller_calls (OnSuccessCalled k # xs) = OnSuccessCalled k # caller_calls xs"
  "caller_calls (OnErrorCalled k v # xs) = OnErrorCalled k v # caller_calls xs"
  "caller_calls (ForceSaveSettled k out # xs) = caller_calls xs"
  "caller_calls (UnhandledRejection v # xs) = caller_calls xs"
  "caller_calls [] = []"
  by (simp_all add: caller_calls_def)

lemma caller_calls_promise_entries: "caller_calls (promise_entries og k out) = []"
  by (simp add: caller_calls_def promise_entries_def split: origin.splits promise_outcome.splits)





lemma resolve_mounted_unfold:
  assumes "find (\<lambda>r. pid r = i) (inflight s) = Some r" and "isMounted s"
  shows "resolve i so eo s =
           (let s1 = (take_call i s)\<lparr>lastSavedContent := contentToSave r, status := Saved\<rparr>
            in case onSuccess (captured r) of
                 None \<Rightarrow> settle_promise (origin r) i Fulfilled (setTimeout ResetToIdle 2000 s1)
               | Some k \<Rightarrow>
                   (case so of
                      Returns \<Rightarrow>
                        settle_promise (origin r) i Fulfilled
                          (setTimeout ResetToIdle 2000 (s1\<lparr>trace := trace s1 @ [OnSuccessCalled k]\<rparr>))
                    | Throws v \<Rightarrow>
                        catch_block r v eo (s1\<lparr>trace := trace s1 @ [OnSuccessCalled k]\<rparr>)))"
  using assms find_pid[OF assms(1)]
  by (simp add: resolve_def Let_def split: option.splits call_result.splits)




lemma render_arms_timer:
  assumes "enabled (args s)" and "c \<noteq> content (args s)" and "c \<noteq> lastSavedContent s"
  shows "\<lparr>tid = nextId s, due = now s + timer_delay (debounceMs (args s)),
          callback = DebouncedSave ((args s)\<lparr>content := c\<rparr>)\<rparr>
         \<in> set (timers (render ((args s)\<lparr>content := c\<rparr>) s))"
proof -
  have "(args s)\<lparr>content := c\<rparr> \<noteq> args s"
  proof
    assume "(args s)\<lparr>content := c\<rparr> = args s"
    then have "content ((args s)\<lparr>content := c\<rparr>) = content (args s)" by simp
    with assms(2) show False by simp
  qed
  with assms show ?thesis
    by (simp add: render_def debounce_effect_def Let_def setTimeout_def clearTimerRef_def
          clearTimeout_def split: option.splits)
qed

lemma reject_unfold:
  assumes "find (\<lambda>r. pid r = i) (inflight s) = Some r"
  shows "reject i e eo s = catch_block r e eo (take_call i s)"
  using assms by (simp add: reject_def)

lemma reject_frame:
  "args (reject i e eo s) = args s \<and> now (reject i e eo s) = now s \<and>
   lastSavedContent (reject i e eo s) = lastSavedContent s \<and>
   nextId (reject i e eo s) = nextId s \<and> isMounted (reject i e eo s) = isMounted s"
  by (simp add: reject_def catch_block_frame take_call_def split: option.splits)

text \<open>
  C4, as the code has it. When \<^verbatim>\<open>onSave\<close> rejects, the snapshot and with it
  \<open>hasUnsavedChanges\<close> are unchanged. While the component is still mounted the status
  becomes \<open>Error\<close>, the error callback is called if one was given, a following
  \<^verbatim>\<open>forceSave()\<close> calls \<^verbatim>\<open>onSave\<close> again with the current content, and (with auto-save
  enabled) a following change of the content to something other than the snapshot arms
  the debounce timer again. The rejection of \<^verbatim>\<open>onSave\<close> is not passed on: the promise of
  \<^verbatim>\<open>performSave\<close>, which \<^verbatim>\<open>forceSave()\<close> returns, is fulfilled, unless the error callback
  itself throws; it is then rejected with what the callback threw.
\<close>

theorem reject_keeps_snapshot:
  assumes "find (\<lambda>r. pid r = i) (inflight s) = Some r"
  shows "lastSavedContent (reject i e eo s) = lastSavedContent s \<and>
         hasUnsavedChanges (reject i e eo s) = hasUnsavedChanges s \<and>
         trace (reject i e eo s) =
           trace s @
           (if isMounted s
            then (case onError (captured r) of
                    None \<Rightarrow> promise_entries (origin r) i Fulfilled
                  | Some k \<Rightarrow>
                      OnErrorCalled k (toError e) # promise_entries (origin r) i (outcome_of eo))
            else promise_entries (origin r) i Fulfilled) \<and>
         (isMounted s \<longrightarrow>
            status (reject i e eo s) = Error \<and>
            trace (forceSave (reject i e eo s)) =
              trace (reject i e eo s) @ [OnSaveCalled (onSave (args s)) (content (args s)) (now s)] \<and>
            (\<forall>c. enabled (args s) \<and> c \<noteq> content (args s) \<and> c \<noteq> lastSavedContent s \<longrightarrow>
               \<lparr>tid = nextId s, due = now s + timer_delay (debounceMs (args s)),
                callback = DebouncedSave ((args s)\<lparr>content := c\<rparr>)\<rparr>
               \<in> set (timers (render ((args s)\<lparr>content := c\<rparr>) (reject i e eo s)))))"
proof -
  note u = reject_unfold[OF assms, of e eo]
  note f = reject_frame[of i e eo s]
  have pr: "pid r = i" using assms by (rule find_pid)
  have a: "lastSavedContent (reject i e eo s) = lastSavedContent s \<and>
         hasUnsavedChanges (reject i e eo s) = hasUnsavedChanges s"
    using f by (simp add: hasUnsavedChanges_def)
  have b: "trace (reject i e eo s) =
           trace s @
           (if isMounted s
            then (case onError (captured r) of
                    None \<Rightarrow> promise_entries (origin r) i Fulfilled
                  | Some k \<Rightarrow>
                      OnErrorCalled k (toError e) # promise_entries (origin r) i (outcome_of eo))
            else promise_entries (origin r) i Fulfilled)"
    unfolding u using pr by (auto simp: catch_block_trace take_call_def split: option.splits)
  have c: "isMounted s \<longrightarrow> status (reject i e eo s) = Error"
    unfolding u by (simp add: catch_block_status take_call_def)
  have d: "isMounted s \<longrightarrow> trace (forceSave (reject i e eo s)) =
              trace (reject i e eo s) @ [OnSaveCalled (onSave (args s)) (content (args s)) (now s)]"
  proof
    assume "isMounted s"
    then have "isMounted (clearTimerRef (reject i e eo s))"
      using f by (simp add: clearTimerRef_def clearTimeout_def split: option.splits)
    moreover have "trace (clearTimerRef (reject i e eo s)) = trace (reject i e eo s)"
      "now (clearTimerRef (reject i e eo s)) = now s"
      using f by (simp_all add: clearTimerRef_def clearTimeout_def split: option.splits)
    ultimately show "trace (forceSave (reject i e eo s)) =
              trace (reject i e eo s) @ [OnSaveCalled (onSave (args s)) (content (args s)) (now s)]"
      using f by (simp add: forceSave_def performSave_def)
  qed
  have g: "\<forall>c. enabled (args s) \<and> c \<noteq> content (args s) \<and> c \<noteq> lastSavedContent s \<longrightarrow>
               \<lparr>tid = nextId s, due = now s + timer_delay (debounceMs (args s)),
                callback = DebouncedSave ((args s)\<lparr>content := c\<rparr>)\<rparr>
               \<in> set (timers (render ((args s)\<lparr>content := c\<rparr>) (reject i e eo s)))"
  proof (intro allI impI)
    fix c assume c: "enabled (args s) \<and> c \<noteq> content (args s) \<and> c \<noteq> lastSavedContent s"
    from c f have "enabled (args (reject i e eo s))" "c \<noteq> content (args (reject i e eo s))"
      "c \<noteq> lastSavedContent (reject i e eo s)" by simp_all
    from render_arms_timer[OF this] f
    show "\<lparr>tid = nextId s, due = now s + timer_delay (debounceMs (args s)),
                callback = DebouncedSave ((args s)\<lparr>content := c\<rparr>)\<rparr>
               \<in> set (timers (render ((args s)\<lparr>content := c\<rparr>) (reject i e eo s)))"
      by simp
  qed
  from a b c d g show ?thesis by blast
qed

theorem reject_keeps_snapshot_witness:
  "find (\<lambda>r. pid r = 2) (inflight forced_a) =
     Some \<lparr>pid = 2, contentToSave = ''a'', captured = typing_args\<lparr>content := ''a''\<rparr>,
           origin = ByForceSave\<rparr> \<and>
   isMounted forced_a \<and>
   lastSavedContent (reject 2 (NonError ''offline'') Returns forced_a) = [] \<and>
   hasUnsavedChanges (reject 2 (NonError ''offline'') Returns forced_a) = True \<and>
   status (reject 2 (NonError ''offline'') Returns forced_a) = Error \<and>
   trace (reject 2 (NonError ''offline'') Returns forced_a) =
     [OnSaveCalled 0 ''a'' 0, OnErrorCalled 8 (ErrorInstance ''Save failed''),
      ForceSaveSettled 2 Fulfilled]"
proof -
  have h1: "find (\<lambda>r. pid r = 2) (inflight forced_a) =
     Some \<lparr>pid = 2, contentToSave = ''a'', captured = typing_args\<lparr>content := ''a''\<rparr>,
           origin = ByForceSave\<rparr>"
    by (simp add: forced_a_state)
  have h2: "isMounted forced_a" by (simp add: forced_a_state)
  have vals: "lastSavedContent forced_a = []" "hasUnsavedChanges forced_a = True"
    "trace forced_a = [OnSaveCalled 0 ''a'' 0]"
    by (simp_all add: forced_a_state hasUnsavedChanges_def typing_args_def)
  from reject_keeps_snapshot[OF h1, of "NonError ''offline''" Returns] h2
  have "lastSavedContent (reject 2 (NonError ''offline'') Returns forced_a) = lastSavedContent forced_a \<and>
        hasUnsavedChanges (reject 2 (NonError ''offline'') Returns forced_a) = hasUnsavedChanges forced_a \<and>
        status (reject 2 (NonError ''offline'') Returns forced_a) = Error \<and>
        trace (reject 2 (NonError ''offline'') Returns forced_a) =
          trace forced_a @ [OnErrorCalled 8 (ErrorInstance ''Save failed''),
                            ForceSaveSettled 2 Fulfilled]"
    by (simp add: typing_args_def promise_entries_def outcome_of_def)
  with vals h1 h2 show ?thesis by simp
qed

text \<open>C4 as stated fails in two ways. When the editor was unmounted while the save was in
  flight, the promise rejects and the status does not become \<open>Error\<close>. And when the error
  callback throws, the promise \<^verbatim>\<open>forceSave()\<close> returned is rejected: the caller of the
  controller gets an exception out of a failed save.\<close>

theorem rejected_but_no_error_status:
  "find (\<lambda>r. pid r = 2) (inflight (unmount saving_a)) =
     Some \<lparr>pid = 2, contentToSave = ''a'', captured = typing_args\<lparr>content := ''a''\<rparr>,
           origin = ByTimer\<rparr> \<and>
   status (reject 2 (NonError ''offline'') Returns (unmount saving_a)) = Saving \<and>
   trace (reject 2 (NonError ''offline'') Returns (unmount saving_a)) = [OnSaveCalled 0 ''a'' 1000] \<and>
   isMounted forced_a = True \<and>
   trace (reject 2 (NonError ''offline'') (Throws (NonError ''boom'')) forced_a) =
     [OnSaveCalled 0 ''a'' 0, OnErrorCalled 8 (ErrorInstance ''Save failed''),
      ForceSaveSettled 2 (RejectedWith (NonError ''boom''))]"
  by (simp add: saving_a_state forced_a_state op_defs typing_args_def)

lemma forceSave_clears_debounce:
  assumes "wellformed s" and "t \<in> set (timers (forceSave s))"
  shows "callback t = ResetToIdle"
proof (cases "callback t")
  case ResetToIdle
  then show ?thesis .
next
  case (DebouncedSave cl)
  from assms(2) have "t \<in> set (timers s)"
    by (auto simp: forceSave_def performSave_def settle_promise_def clearTimerRef_def
          clearTimeout_def split: option.splits if_splits)
  with assms(1) DebouncedSave have "timerRef s = Some (tid t)"
    by (auto simp: wellformed_def)
  with assms(2) show ?thesis
    by (auto simp: forceSave_def performSave_def settle_promise_def clearTimerRef_def
          clearTimeout_def split: option.splits if_splits)
qed

lemma unmount_clears_debounce:
  assumes "wellformed s" and "t \<in> set (timers (unmount s))"
  shows "callback t = ResetToIdle"
proof (cases "callback t")
  case ResetToIdle
  then show ?thesis .
next
  case (DebouncedSave cl)
  from assms(2) have "t \<in> set (timers s)"
    by (auto simp: unmount_def clearTimerRef_def clearTimeout_def Let_def
             split: option.splits if_splits)
  with assms(1) DebouncedSave have "timerRef s = Some (tid t)"
    by (auto simp: wellformed_def)
  with assms(2) show ?thesis
    by (auto simp: unmount_def clearTimerRef_def clearTimeout_def Let_def
             split: option.splits if_splits)
qed

lemma unmounted_step:
  assumes "\<not> isMounted s" and "e \<noteq> ResetStatus"
  shows "\<not> isMounted (step e s) \<and> status (step e s) = status s \<and>
         lastSavedContent (step e s) = lastSavedContent s \<and>
         caller_calls (trace (step e s)) = caller_calls (trace s)"
  using assms
  by (cases e)
     (auto simp: op_defs Let_def caller_calls_def
           split: option.splits origin.splits timer_callback.splits)

lemma unmounted_exec:
  assumes "\<not> isMounted s" and "ResetStatus \<notin> set es"
  shows "\<not> isMounted (exec es s) \<and> status (exec es s) = status s \<and>
         lastSavedContent (exec es s) = lastSavedContent s \<and>
         caller_calls (trace (exec es s)) = caller_calls (trace s)"
  using assms
proof (induction es arbitrary: s)
  case Nil
  then show ?case by (simp add: exec_def)
next
  case (Cons e es)
  from Cons.prems have e: "e \<noteq> ResetStatus" and es: "ResetStatus \<notin> set es" by auto
  note st = unmounted_step[OF Cons.prems(1) e]
  from st have "\<not> isMounted (step e s)" by simp
  from Cons.IH[OF this es] st show ?case by (simp add: exec_def)
qed

lemma last_promise_entries_force:
  "last (xs @ promise_entries ByForceSave k out) = ForceSaveSettled k out"
  by (simp add: promise_entries_def)

text \<open>
  C6, as the code has it. In every reachable state \<^verbatim>\<open>forceSave()\<close> leaves no debounce
  timer pending and takes no time. When the component is mounted it calls \<^verbatim>\<open>onSave\<close> with
  the current content in the same instant, and the call it leaves in flight belongs to the
  promise it returns. When the component was unmounted it calls nothing and its promise is
  fulfilled at once. The promise of a call in flight settles as soon as \<^verbatim>\<open>onSave\<close>
  settles: it is fulfilled whether \<^verbatim>\<open>onSave\<close> resolved or rejected, unless the
  \<^verbatim>\<open>catch\<close> block runs in a mounted component and the error callback throws; it is then
  rejected with what the callback threw.
\<close>

theorem forceSave_saves_at_once:
  assumes "s = exec es (mount p t0)"
  shows "(\<forall>t \<in> set (timers (forceSave s)). callback t = ResetToIdle) \<and>
         now (forceSave s) = now s \<and>
         (isMounted s \<longrightarrow>
            status (forceSave s) = Saving \<and>
            trace (forceSave s) =
              trace s @ [OnSaveCalled (onSave (args s)) (content (args s)) (now s)] \<and>
            find (\<lambda>r. pid r = nextId s) (inflight (forceSave s)) =
              Some \<lparr>pid = nextId s, contentToSave = content (args s), captured = args s,
                    origin = ByForceSave\<rparr>) \<and>
         (\<not> isMounted s \<longrightarrow>
            status (forceSave s) = status s \<and> inflight (forceSave s) = inflight s \<and>
            lastSavedContent (forceSave s) = lastSavedContent s \<and>
            trace (forceSave s) = trace s @ [ForceSaveSettled (nextId s) Fulfilled]) \<and>
         (\<forall>u i r e so eo.
            find (\<lambda>r. pid r = i) (inflight u) = Some r \<and> origin r = ByForceSave \<longrightarrow>
            last (trace (reject i e eo u)) =
              ForceSaveSettled i
                (if isMounted u \<and> onError (captured r) \<noteq> None then outcome_of eo else Fulfilled) \<and>
            last (trace (resolve i so eo u)) =
              ForceSaveSettled i
                (if isMounted u \<and> onSuccess (captured r) \<noteq> None \<and> so \<noteq> Returns \<and>
                    onError (captured r) \<noteq> None
                 then outcome_of eo else Fulfilled))"
proof -
  have wf: "wellformed s" using assms(1) by (simp add: wellformed_reachable)
  have a: "\<forall>t \<in> set (timers (forceSave s)). callback t = ResetToIdle"
    using forceSave_clears_debounce[OF wf] by blast
  have "\<forall>r \<in> set (inflight s). pid r \<noteq> nextId s"
    using wf by (auto simp: wellformed_def)
  then have nf: "find (\<lambda>r. pid r = nextId s) (inflight s) = None"
    by (simp add: find_None_iff)
  have b: "isMounted s \<longrightarrow>
            status (forceSave s) = Saving \<and>
            trace (forceSave s) =
              trace s @ [OnSaveCalled (onSave (args s)) (content (args s)) (now s)] \<and>
            find (\<lambda>r. pid r = nextId s) (inflight (forceSave s)) =
              Some \<lparr>pid = nextId s, contentToSave = content (args s), captured = args s,
                    origin = ByForceSave\<rparr>"
    using nf
    by (simp add: forceSave_def performSave_def clearTimerRef_def clearTimeout_def
          find_append_new split: option.splits)
  have c: "now (forceSave s) = now s"
    by (simp add: forceSave_def performSave_def settle_promise_def clearTimerRef_def
          clearTimeout_def split: option.splits)
  have d: "\<not> isMounted s \<longrightarrow>
            status (forceSave s) = status s \<and> inflight (forceSave s) = inflight s \<and>
            lastSavedContent (forceSave s) = lastSavedContent s \<and>
            trace (forceSave s) = trace s @ [ForceSaveSettled (nextId s) Fulfilled]"
    by (simp add: forceSave_def performSave_def settle_promise_def promise_entries_def
          clearTimerRef_def clearTimeout_def split: option.splits)
  have g: "\<forall>u i r e so eo.
            find (\<lambda>r. pid r = i) (inflight u) = Some r \<and> origin r = ByForceSave \<longrightarrow>
            last (trace (reject i e eo u)) =
              ForceSaveSettled i
                (if isMounted u \<and> onError (captured r) \<noteq> None then outcome_of eo else Fulfilled) \<and>
            last (trace (resolve i so eo u)) =
              ForceSaveSettled i
                (if isMounted u \<and> onSuccess (captured r) \<noteq> None \<and> so \<noteq> Returns \<and>
                    onError (captured r) \<noteq> None
                 then outcome_of eo else Fulfilled)"
  proof (intro allI impI, elim conjE)
    fix u :: state and i :: nat and r :: save_call and e :: js_value
      and so eo :: call_result
    assume f: "find (\<lambda>r. pid r = i) (inflight u) = Some r" and o: "origin r = ByForceSave"
    have pr: "pid r = i" using f by (rule find_pid)
    have m: "isMounted (take_call i u) = isMounted u" by (simp add: take_call_def)
    have rj: "last (trace (reject i e eo u)) =
              ForceSaveSettled i
                (if isMounted u \<and> onError (captured r) \<noteq> None then outcome_of eo else Fulfilled)"
      using f o pr
      by (auto simp: reject_def catch_block_trace m promise_entries_def split: option.splits)
    have rs: "last (trace (resolve i so eo u)) =
              ForceSaveSettled i
                (if isMounted u \<and> onSuccess (captured r) \<noteq> None \<and> so \<noteq> Returns \<and>
                    onError (captured r) \<noteq> None
                 then outcome_of eo else Fulfilled)"
      using f o pr
      by (auto simp: resolve_def Let_def catch_block_trace take_call_def settle_promise_def
            setTimeout_def promise_entries_def split: option.splits call_result.splits)
    from rj rs show "last (trace (reject i e eo u)) =
              ForceSaveSettled i
                (if isMounted u \<and> onError (captured r) \<noteq> None then outcome_of eo else Fulfilled) \<and>
            last (trace (resolve i so eo u)) =
              ForceSaveSettled i
                (if isMounted u \<and> onSuccess (captured r) \<noteq> None \<and> so \<noteq> Returns \<and>
                    onError (captured r) \<noteq> None
                 then outcome_of eo else Fulfilled)" by blast
  qed
  from a b c d g show ?thesis by blast
qed

text \<open>The theorem right after the user typed \<open>a\<close>: the debounce timer is pending, and
  \<^verbatim>\<open>forceSave()\<close> saves \<open>a\<close> at time 0.\<close>

theorem forceSave_saves_at_once_witness:
  "isMounted typed_a \<and>
   timers typed_a = [\<lparr>tid = 1, due = 1000, callback = DebouncedSave (typing_args\<lparr>content := ''a''\<rparr>)\<rparr>] \<and>
   now (forceSave typed_a) = 0 \<and>
   status (forceSave typed_a) = Saving \<and>
   trace (forceSave typed_a) = [OnSaveCalled 0 ''a'' 0]"
proof -
  have h1: "typed_a = exec [Render (typing_args\<lparr>content := ''a''\<rparr>)] (mount typing_args 0)"
    by (rule typed_a_def)
  have h2: "isMounted typed_a" by (simp add: typed_a_state)
  have vals: "now typed_a = 0" "trace typed_a = []" "onSave (args typed_a) = 0"
    "content (args typed_a) = ''a''"
    "timers typed_a = [\<lparr>tid = 1, due = 1000, callback = DebouncedSave (typing_args\<lparr>content := ''a''\<rparr>)\<rparr>]"
    by (simp_all add: typed_a_state typing_args_def)
  from forceSave_saves_at_once[OF h1] h2
  have "now (forceSave typed_a) = now typed_a \<and> status (forceSave typed_a) = Saving \<and>
        trace (forceSave typed_a) =
          trace typed_a @ [OnSaveCalled (onSave (args typed_a)) (content (args typed_a)) (now typed_a)]"
    by blast
  with vals h2 show ?thesis by simp
qed

text \<open>C6 as stated fails in two ways. In a state of a controller that was unmounted,
  \<^verbatim>\<open>forceSave()\<close> returns a fulfilled promise without calling \<^verbatim>\<open>onSave\<close>. And when the save
  it started fails and the error callback throws, the promise it returned does not
  resolve: it is rejected.\<close>

theorem forceSave_without_save_or_resolution:
  "isMounted (unmount typed_a) = False \<and>
   hasUnsavedChanges (unmount typed_a) = True \<and>
   trace (forceSave (unmount typed_a)) = [ForceSaveSettled 2 Fulfilled] \<and>
   inflight (forceSave (unmount typed_a)) = [] \<and>
   status (forceSave (unmount typed_a)) = Idle \<and>
   isMounted typed_a = True \<and>
   trace (reject 2 (NonError ''offline'') (Throws (NonError ''boom'')) (forceSave typed_a)) =
     [OnSaveCalled 0 ''a'' 0, OnErrorCalled 8 (ErrorInstance ''Save failed''),
      ForceSaveSettled 2 (RejectedWith (NonError ''boom''))]"
  by (simp add: typed_a_state op_defs typing_args_def)

text \<open>
  C7. Unmounting leaves no debounce timer pending, and whatever happens afterwards
  (timers firing, promises of \<^verbatim>\<open>onSave\<close> resolving or rejecting, time passing, even a late
  \<^verbatim>\<open>forceSave()\<close>), the status and the snapshot stay what they were and the caller's
  functions are not called: there is no transition to \<open>Saving\<close> and no update from a save
  that settles late. (An explicit \<^verbatim>\<open>resetStatus()\<close> is the one call that writes the
  status without looking at the mounted flag.)
\<close>

theorem no_update_after_unmount:
  assumes "u = unmount (exec es0 (mount p t0))" and "ResetStatus \<notin> set es"
  shows "(\<forall>t \<in> set (timers u). callback t = ResetToIdle) \<and>
         status (exec es u) = status u \<and>
         lastSavedContent (exec es u) = lastSavedContent u \<and>
         caller_calls (trace (exec es u)) = caller_calls (trace u)"
proof -
  have "wellformed (exec es0 (mount p t0))" by (rule wellformed_reachable)
  then have a: "\<forall>t \<in> set (timers u). callback t = ResetToIdle"
    using assms(1) unmount_clears_debounce by blast
  have "\<not> isMounted u" using assms(1)
    by (simp add: unmount_def clearTimerRef_def clearTimeout_def Let_def split: option.splits)
  from unmounted_exec[OF this assms(2)] a show ?thesis by simp
qed

text \<open>The theorem when the editor is unmounted while the save of \<open>a\<close> is in flight, and
  the save then resolves: the status stays \<open>Saving\<close>, the snapshot stays empty.\<close>

theorem no_update_after_unmount_witness:
  "ResetStatus \<notin> set [Resolve 2 Returns Returns, Tick 5000, Fire, ForceSave] \<and>
   status (exec [Resolve 2 Returns Returns, Tick 5000, Fire, ForceSave] (unmount saving_a)) = Saving \<and>
   lastSavedContent (exec [Resolve 2 Returns Returns, Tick 5000, Fire, ForceSave] (unmount saving_a)) = [] \<and>
   caller_calls (trace (exec [Resolve 2 Returns Returns, Tick 5000, Fire, ForceSave] (unmount saving_a)))
     = [OnSaveCalled 0 ''a'' 1000]"
proof -
  have h1: "unmount saving_a =
      unmount (exec [Render (typing_args\<lparr>content := ''a''\<rparr>), Tick 1000, Fire] (mount typing_args 0))"
    by (simp add: saving_a_def)
  have h2: "ResetStatus \<notin> set [Resolve 2 Returns Returns, Tick 5000, Fire, ForceSave]" by simp
  have vals: "status (unmount saving_a) = Saving" "lastSavedContent (unmount saving_a) = []"
    "caller_calls (trace (unmount saving_a)) = [OnSaveCalled 0 ''a'' 1000]"
    by (simp_all add: saving_a_state op_defs caller_calls_def)
  from no_update_after_unmount[OF h1 h2] vals h2 show ?thesis by simp
qed

text \<open>
  C10. When a save fails and the error callback is called, it is called with the rejection
  value itself if that value is an instance of \<^verbatim>\<open>Error\<close>, and otherwise with a new
  \<^verbatim>\<open>Error('Save failed')\<close>, which is not the value \<^verbatim>\<open>onSave\<close> rejected with.
\<close>

theorem onError_gets_an_Error:
  assumes "find (\<lambda>r. pid r = i) (inflight s) = Some r" and "isMounted s"
      and "onError (captured r) = Some k"
  shows "caller_calls (trace (reject i e eo s)) = caller_calls (trace s) @ [OnErrorCalled k (toError e)] \<and>
         (instanceofError e \<longrightarrow> toError e = e) \<and>
         (\<not> instanceofError e \<longrightarrow> toError e = ErrorInstance ''Save failed'' \<and> toError e \<noteq> e)"
proof -
  have "caller_calls (trace (reject i e eo s)) = caller_calls (trace s) @ [OnErrorCalled k (toError e)]"
    using assms
    by (simp add: reject_def catch_block_trace take_call_def caller_calls_append
          caller_calls_Cons caller_calls_promise_entries)
  then show ?thesis by (cases e) simp_all
qed

theorem onError_gets_an_Error_witness:
  "find (\<lambda>r. pid r = 2) (inflight saving_a) =
     Some \<lparr>pid = 2, contentToSave = ''a'', captured = typing_args\<lparr>content := ''a''\<rparr>,
           origin = ByTimer\<rparr> \<and>
   isMounted saving_a \<and>
   onError (typing_args\<lparr>content := ''a''\<rparr>) = Some 8 \<and>
   caller_calls (trace (reject 2 (NonError ''offline'') Returns saving_a)) =
     [OnSaveCalled 0 ''a'' 1000, OnErrorCalled 8 (ErrorInstance ''Save failed'')] \<and>
   caller_calls (trace (reject 2 (ErrorInstance ''timeout'') (Throws (NonError ''boom'')) saving_a)) =
     [OnSaveCalled 0 ''a'' 1000, OnErrorCalled 8 (ErrorInstance ''timeout'')]"
proof -
  let ?r = "\<lparr>pid = 2, contentToSave = ''a'', captured = typing_args\<lparr>content := ''a''\<rparr>,
             origin = ByTimer\<rparr>"
  have h1: "find (\<lambda>r. pid r = 2) (inflight saving_a) = Some ?r"
    by (simp add: saving_a_state)
  have h2: "isMounted saving_a" by (simp add: saving_a_state)
  have h3: "onError (captured ?r) = Some 8" by (simp add: typing_args_def)
  have vals: "caller_calls (trace saving_a) = [OnSaveCalled 0 ''a'' 1000]"
    by (simp add: saving_a_state caller_calls_def)
  from onError_gets_an_Error[OF h1 h2 h3, of "NonError ''offline''" Returns]
       onError_gets_an_Error[OF h1 h2 h3, of "ErrorInstance ''timeout''" "Throws (NonError ''boom'')"]
       vals h1 h2 h3
  show ?thesis by simp
qed




text \<open>
  C2, as the code has it. When \<^verbatim>\<open>onSave\<close> resolves while the component is mounted and the
  success callback, if there is one, returns, the status becomes \<open>Saved\<close> and a reset is
  armed for 2000 ms later. If only timers run in those 2000 ms, the status is \<open>Idle\<close> at
  their end; and whenever the reset runs in a mounted component it sets the status to
  \<open>Idle\<close>, whatever the status has become since. When the success callback throws, the
  status becomes \<open>Error\<close> and no reset is armed.
\<close>

theorem saved_resets_to_idle:
  assumes "find (\<lambda>r. pid r = i) (inflight s) = Some r" and "isMounted s"
  shows "(onSuccess (captured r) = None \<or> so = Returns \<longrightarrow>
            status (resolve i so eo s) = Saved \<and>
            timers (resolve i so eo s) =
              timers s @ [\<lparr>tid = nextId s, due = now s + 2000, callback = ResetToIdle\<rparr>] \<and>
            status (advance 2000 (resolve i so eo s)) = Idle \<and>
            now (advance 2000 (resolve i so eo s)) = now s + 2000) \<and>
         (\<forall>k v. onSuccess (captured r) = Some k \<and> so = Throws v \<longrightarrow>
            status (resolve i so eo s) = Error \<and> timers (resolve i so eo s) = timers s) \<and>
         (\<forall>u t. isMounted u \<and> callback t = ResetToIdle \<longrightarrow> status (fire_timer t u) = Idle)"
proof -
  note u = resolve_mounted_unfold[OF assms, of so eo]
  let ?t = "\<lparr>tid = nextId s, due = now s + 2000, callback = ResetToIdle\<rparr>"
  have a: "onSuccess (captured r) = None \<or> so = Returns \<longrightarrow>
            status (resolve i so eo s) = Saved \<and>
            timers (resolve i so eo s) = timers s @ [?t] \<and>
            status (advance 2000 (resolve i so eo s)) = Idle \<and>
            now (advance 2000 (resolve i so eo s)) = now s + 2000"
  proof
    assume ok: "onSuccess (captured r) = None \<or> so = Returns"
    have st: "status (resolve i so eo s) = Saved" "timers (resolve i so eo s) = timers s @ [?t]"
      "now (resolve i so eo s) = now s" "isMounted (resolve i so eo s)"
      unfolding u using ok assms(2)
      by (auto simp: Let_def settle_promise_frame setTimeout_def take_call_def timer_delay_def
            split: option.splits call_result.splits)
    have "status (run_timers (now s + 2000) (resolve i so eo s)) = Idle"
      using st(4,2) by (rule reset_runs_last) simp_all
    then have "status (advance 2000 (resolve i so eo s)) = Idle"
      "now (advance 2000 (resolve i so eo s)) = now s + 2000"
      using st(3) by (simp_all add: advance_def)
    with st show "status (resolve i so eo s) = Saved \<and>
            timers (resolve i so eo s) = timers s @ [?t] \<and>
            status (advance 2000 (resolve i so eo s)) = Idle \<and>
            now (advance 2000 (resolve i so eo s)) = now s + 2000" by simp
  qed
  have b: "\<forall>k v. onSuccess (captured r) = Some k \<and> so = Throws v \<longrightarrow>
            status (resolve i so eo s) = Error \<and> timers (resolve i so eo s) = timers s"
    unfolding u using assms(2)
    by (auto simp: Let_def catch_block_status catch_block_frame take_call_def)
  have c: "\<forall>u t. isMounted u \<and> callback t = ResetToIdle \<longrightarrow> status (fire_timer t u) = Idle"
    by (simp add: fire_timer_def)
  from a b c show ?thesis by blast
qed

theorem saved_resets_to_idle_witness:
  "find (\<lambda>r. pid r = 2) (inflight saving_a) =
     Some \<lparr>pid = 2, contentToSave = ''a'', captured = typing_args\<lparr>content := ''a''\<rparr>,
           origin = ByTimer\<rparr> \<and>
   isMounted saving_a \<and>
   status (resolve 2 Returns Returns saving_a) = Saved \<and>
   status (advance 2000 (resolve 2 Returns Returns saving_a)) = Idle \<and>
   now (advance 2000 (resolve 2 Returns Returns saving_a)) = 3000"
proof -
  have h1: "find (\<lambda>r. pid r = 2) (inflight saving_a) =
     Some \<lparr>pid = 2, contentToSave = ''a'', captured = typing_args\<lparr>content := ''a''\<rparr>,
           origin = ByTimer\<rparr>"
    by (simp add: saving_a_state)
  have h2: "isMounted saving_a" by (simp add: saving_a_state)
  have vals: "now saving_a = 1000" by (simp add: saving_a_state)
  from saved_resets_to_idle[OF h1 h2, of Returns Returns]
  have "status (resolve 2 Returns Returns saving_a) = Saved \<and>
        status (advance 2000 (resolve 2 Returns Returns saving_a)) = Idle \<and>
        now (advance 2000 (resolve 2 Returns Returns saving_a)) = now saving_a + 2000"
    by blast
  with vals h1 h2 show ?thesis by simp
qed

text \<open>C2 as stated fails in two ways. The reset of a first save overwrites the status of a
  second one: the save of \<open>a\<close> resolves at 1000, the user types \<open>ab\<close> at 1500, the debounce
  starts the save of \<open>ab\<close> at 2500, and at 3000 the stale reset sets the status to \<open>Idle\<close>
  while that save is still in flight. And a save that resolved does not reset to \<open>Idle\<close>
  when its success callback throws: the status is \<open>Error\<close> and stays so, no reset being
  armed.\<close>

theorem reset_overwrites_or_is_missing:
  "status (exec [Resolve 2 Returns Returns, Tick 500, Render (typing_args\<lparr>content := ''ab''\<rparr>),
                 Tick 1000, Fire] saving_a) = Saving \<and>
   status (exec [Resolve 2 Returns Returns, Tick 500, Render (typing_args\<lparr>content := ''ab''\<rparr>),
                 Tick 1000, Fire, Tick 500, Fire] saving_a) = Idle \<and>
   now (exec [Resolve 2 Returns Returns, Tick 500, Render (typing_args\<lparr>content := ''ab''\<rparr>),
              Tick 1000, Fire, Tick 500, Fire] saving_a) = 3000 \<and>
   inflight (exec [Resolve 2 Returns Returns, Tick 500, Render (typing_args\<lparr>content := ''ab''\<rparr>),
                   Tick 1000, Fire, Tick 500, Fire] saving_a) =
     [\<lparr>pid = 5, contentToSave = ''ab'', captured = typing_args\<lparr>content := ''ab''\<rparr>,
       origin = ByTimer\<rparr>] \<and>
   isMounted saving_a = True \<and>
   status (resolve 2 (Throws (NonError ''boom'')) Returns saving_a) = Error \<and>
   timers (resolve 2 (Throws (NonError ''boom'')) Returns saving_a) = [] \<and>
   status (advance 2000 (resolve 2 (Throws (NonError ''boom'')) Returns saving_a)) = Error"
  by (simp add: saving_a_state exec_def op_defs typing_args_def timer_delay_def advance_def
        run_timers.simps)

section \<open>Properties of the debounce primitive\<close>








end
